theory Spec2Isabelle
  imports Main "HOL-Library.Char_ord" "HOL-Library.List_Lexorder" "HOL-Library.Sublist"
    "HOL-Library.AList"
begin

section \<open>merge\_sources.py: strings and paths\<close>

text \<open>
  Python strings are modelled as \<open>string\<close> (byte lists; non-ASCII text is its UTF-8
  encoding). \<open>str.lower\<close> and \<open>str.rstrip\<close> are modelled on their ASCII part: the
  letters A-Z are lowered, and the whitespace characters are 0x09-0x0D, 0x1C-0x1F and
  the space. A resolved absolute \<open>Path\<close> is the list of its components below the
  filesystem root; \<open>[]\<close> is the filesystem root itself. Symbolic links are not modelled.
\<close>

type_synonym path = "string list"

definition lower_char :: "char \<Rightarrow> char" where
  "lower_char c =
     (case map_of (zip ''ABCDEFGHIJKLMNOPQRSTUVWXYZ'' ''abcdefghijklmnopqrstuvwxyz'') c of
        Some d \<Rightarrow> d
      | None \<Rightarrow> c)"

definition lower :: "string \<Rightarrow> string" where
  "lower s = map lower_char s"

definition isspace :: "char \<Rightarrow> bool" where
  "isspace c = (c \<in> set [CHR 0x09, CHR 0x0A, CHR 0x0B, CHR 0x0C, CHR 0x0D,
                            CHR 0x1C, CHR 0x1D, CHR 0x1E, CHR 0x1F, CHR '' ''])"

definition rstrip :: "string \<Rightarrow> string" where
  "rstrip s = rev (dropWhile isspace (rev s))"

text \<open>\<open>Path.name\<close>: the final component, the empty string for the filesystem root.\<close>

definition name :: "path \<Rightarrow> string" where
  "name p = (if p = [] then '''' else last p)"

text \<open>\<open>s.rfind(c)\<close>: the index of the last occurrence of \<open>c\<close>, or \<open>-1\<close>.\<close>

definition rfind :: "char \<Rightarrow> string \<Rightarrow> int" where
  "rfind c s =
     (if c \<in> set s
      then int (length s) - 1 - int (length (takeWhile (\<lambda>x. x \<noteq> c) (rev s)))
      else - 1)"

text \<open>
  \<open>Path.suffix\<close> (pathlib up to Python 3.13):
  \<^verbatim>\<open>i = name.rfind('.'); return name[i:] if 0 < i < len(name) - 1 else ''\<close>
\<close>

definition suffix_of :: "path \<Rightarrow> string" where
  "suffix_of p =
     (let nm = name p; i = rfind CHR ''.'' nm
      in if 0 < i \<and> i < int (length nm) - 1 then drop (nat i) nm else '''')"

text \<open>\<open>Path.parents\<close>: the proper ancestors, nearest first, ending with the filesystem root.\<close>

definition parents :: "path \<Rightarrow> path list" where
  "parents p = map (\<lambda>n. take n p) (rev [0..<length p])"

text \<open>\<open>str(path)\<close> of an absolute path.\<close>

definition str :: "path \<Rightarrow> string" where
  "str p = (if p = [] then ''/'' else concat (map (\<lambda>c. ''/'' @ c) p))"

section \<open>Configuration\<close>

definition WHITELIST_EXTS :: "string list" where
  "WHITELIST_EXTS =
     [''.c'', ''.h'', ''.hpp'', ''.hh'', ''.hxx'', ''.ipp'',
      ''.cpp'', ''.cc'', ''.cxx'', ''.inl'', ''.ixx'',
      ''.cs'', ''.java'', ''.kt'',
      ''.ts'', ''.tsx'', ''.js'', ''.jsx'',
      ''.py'', ''.rs'', ''.go'', ''.swift'',
      ''.m'', ''.mm'', ''.lua'', ''.sh'', ''.bat'', ''.ps1'',
      ''.cmake'', ''.proto'', ''.sql'',
      ''.yml'', ''.yaml'', ''.toml'', ''.ini'', ''.cfg'', ''.conf'',
      ''.txt'', ''.md'', ''.json'', ''.csv'',
      ''.f90'', ''.f95'', ''.f03'', ''.f08'', ''.for'', ''.f'', ''.ftn'',
      ''.asm'', ''.s'',
      ''.vert'', ''.frag'', ''.glsl'', ''.hlsl'', ''.metal'',
      ''.make'']"

definition WHITELIST_BARE_NAMES :: "string list" where
  "WHITELIST_BARE_NAMES = [''Makefile'', ''CMakeLists.txt'']"

definition EXCLUDE_DIRS :: "string list" where
  "EXCLUDE_DIRS =
     [''.git'', ''.hg'', ''.svn'', ''.idea'', ''.vscode'', ''.vs'',
      ''node_modules'', ''dist'', ''out'', ''build'', ''target'', ''bin'', ''obj'',
      ''__pycache__'', ''.venv'', ''venv'', ''.mypy_cache'', ''.pytest_cache'',
      ''DerivedData'', ''Pods'']"

definition OUTPUT_FILENAME :: string where
  "OUTPUT_FILENAME = ''document.txt''"

section \<open>Filters\<close>

definition is_allowed_file :: "path \<Rightarrow> bool" where
  "is_allowed_file p =
     (if name p \<in> set WHITELIST_BARE_NAMES then True
      else lower (suffix_of p) \<in> set WHITELIST_EXTS)"

definition should_skip_dir :: "path \<Rightarrow> bool" where
  "should_skip_dir p = (name p \<in> set EXCLUDE_DIRS)"

section \<open>The filesystem\<close>

text \<open>
  The state of the filesystem is the list of its entries in the order in which a
  directory walk reports them. A directory carries nothing; a file carries whether
  \<open>unlink\<close> is permitted on it and what \<open>read_text(encoding="utf-8", errors="replace")\<close>
  gives for it: the decoded text (decoding with \<open>errors="replace"\<close> is total, every
  undecodable byte becoming the replacement character), or the message of the exception
  the read raises. The filesystem root \<open>[]\<close> is always a directory.
\<close>

datatype node = Dir | File (deletable: bool) (content: "string + string")

type_synonym filesystem = "(path \<times> node) list"

datatype error =
    UsageError
  | SystemExit string
  | TypeError
  | ValueError
  | FileNotFoundError
  | IsADirectoryError
  | PermissionError

definition node_at :: "filesystem \<Rightarrow> path \<Rightarrow> node option" where
  "node_at fs p = (if p = [] then Some Dir else map_of fs p)"

definition exists :: "filesystem \<Rightarrow> path \<Rightarrow> bool" where
  "exists fs p = (node_at fs p \<noteq> None)"

definition is_dir :: "filesystem \<Rightarrow> path \<Rightarrow> bool" where
  "is_dir fs p = (node_at fs p = Some Dir)"

text \<open>\<open>root.rglob("*")\<close>: every entry strictly beneath \<open>root\<close>, files and directories.\<close>

definition rglob :: "filesystem \<Rightarrow> path \<Rightarrow> path list" where
  "rglob fs root = (if is_dir fs root then filter (strict_prefix root) (map fst fs) else [])"

text \<open>\<open>Path.unlink\<close>.\<close>

definition unlink :: "filesystem \<Rightarrow> path \<Rightarrow> error + filesystem" where
  "unlink fs p =
     (case node_at fs p of
        None \<Rightarrow> Inl FileNotFoundError
      | Some Dir \<Rightarrow> Inl IsADirectoryError
      | Some (File d c) \<Rightarrow>
          if d then Inr (filter (\<lambda>e. fst e \<noteq> p) fs) else Inl PermissionError)"

text \<open>
  \<open>out_file.open("w")\<close>: fails on a directory and where the parent is not a directory;
  otherwise the file is created empty, or truncated where it exists.
\<close>

definition open_w :: "filesystem \<Rightarrow> path \<Rightarrow> error + filesystem" where
  "open_w fs p =
     (case node_at fs p of
        Some Dir \<Rightarrow> Inl IsADirectoryError
      | Some (File d c) \<Rightarrow> Inr (AList.update p (File d (Inr [])) fs)
      | None \<Rightarrow>
          if is_dir fs (butlast p) then Inr (AList.update p (File True (Inr [])) fs)
          else Inl FileNotFoundError)"

text \<open>Closing the output file: what was written becomes the file's content.\<close>

definition close_w :: "filesystem \<Rightarrow> path \<Rightarrow> string \<Rightarrow> filesystem" where
  "close_w fs p doc =
     (case node_at fs p of
        Some (File d c) \<Rightarrow> AList.update p (File d (Inr doc)) fs
      | _ \<Rightarrow> fs)"

definition read_text :: "filesystem \<Rightarrow> path \<Rightarrow> string + string" where
  "read_text fs p =
     (case node_at fs p of
        None \<Rightarrow> Inl (''[Errno 2] No such file or directory: '' @ str p)
      | Some Dir \<Rightarrow> Inl (''[Errno 21] Is a directory: '' @ str p)
      | Some (File d c) \<Rightarrow> c)"

section \<open>The enumerator\<close>

text \<open>The body of the loop of \<open>iter_source_files\<close>: whether \<open>p\<close> is appended.\<close>

definition keep :: "filesystem \<Rightarrow> path \<Rightarrow> path \<Rightarrow> bool" where
  "keep fs root p =
     (if is_dir fs p then False
      else if list_ex should_skip_dir (filter (\<lambda>parent. parent \<noteq> root) (parents p)) then False
      else is_allowed_file p)"

definition iter_source_files :: "filesystem \<Rightarrow> path \<Rightarrow> path list" where
  "iter_source_files fs root =
     sort_key (\<lambda>x. lower (str x)) (filter (keep fs root) (rglob fs root))"

text \<open>
  The enumerator as the specification words it: the files beneath the root that pass
  the allowlist test and have no excluded directory name strictly between them and the
  root.
\<close>

definition between :: "path \<Rightarrow> path \<Rightarrow> path list" where
  "between root p = filter (strict_prefix root) (parents p)"

definition spec_selected :: "filesystem \<Rightarrow> path \<Rightarrow> path \<Rightarrow> bool" where
  "spec_selected fs root p =
     (p \<in> set (rglob fs root) \<and> \<not> is_dir fs p \<and> is_allowed_file p
      \<and> \<not> list_ex should_skip_dir (between root p))"

section \<open>The merger\<close>

definition newline :: char where
  "newline = CHR 0x0A"

text \<open>\<open>f.relative_to(rel_base)\<close> raises \<open>ValueError\<close> unless \<open>rel_base\<close> is a prefix of \<open>f\<close>.\<close>

definition relative_to :: "path \<Rightarrow> path \<Rightarrow> error + path" where
  "relative_to f rel_base =
     (if prefix rel_base f then Inr (drop (length rel_base) f) else Inl ValueError)"

fun join :: "string \<Rightarrow> string list \<Rightarrow> string" where
  "join sep [] = []"
| "join sep [x] = x"
| "join sep (x # y # ys) = x @ sep @ join sep (y # ys)"

text \<open>\<open>as_posix()\<close> of a relative path; the empty relative path is \<open>.\<close>\<close>

definition as_posix :: "path \<Rightarrow> string" where
  "as_posix rel = (if rel = [] then ''.'' else join ''/'' rel)"

text \<open>
  The text written for one entry: \<open>read_text\<close>, or the diagnostic of the
  \<open>except Exception\<close> branch.
\<close>

definition entry_text :: "filesystem \<Rightarrow> path \<Rightarrow> string" where
  "entry_text fs f =
     (case read_text fs f of
        Inr t \<Rightarrow> t
      | Inl e \<Rightarrow> ''<<ERROR READING FILE: '' @ e @ ''>>'')"

text \<open>
  The loop of \<open>write_merged\<close> over \<open>enumerate(files)\<close>, from index \<open>i\<close>, with
  \<open>n = len(files)\<close>: what it writes, and the exception that stops it, if any. The files
  are read in the state the filesystem has once the output is open; what the loop has
  written is still buffered then, so an output file that is itself read reads as empty.
  Writing to the open output is taken to succeed.
\<close>

fun write_entries ::
  "filesystem \<Rightarrow> path \<Rightarrow> nat \<Rightarrow> nat \<Rightarrow> path list \<Rightarrow> string \<times> error option" where
  "write_entries fs rel_base n i [] = ([], None)"
| "write_entries fs rel_base n i (f # rest) =
     (case relative_to f rel_base of
        Inl e \<Rightarrow> ([], Some e)
      | Inr relp \<Rightarrow>
          (let rel = as_posix relp;
               header = ''-- '' @ rel @ [newline, newline];
               body = rstrip (entry_text fs f) @ [newline];
               sep = (if i \<noteq> n - 1 then [newline] else []);
               (more, r) = write_entries fs rel_base n (i + 1) rest
           in (header @ body @ sep @ more, r)))"

definition write_merged ::
  "filesystem \<Rightarrow> path \<Rightarrow> path list \<Rightarrow> path \<Rightarrow> filesystem \<times> error option" where
  "write_merged fs root files out_file =
     (case open_w fs out_file of
        Inl e \<Rightarrow> (fs, Some e)
      | Inr fs' \<Rightarrow>
          (let (doc, r) = write_entries fs' root (length files) 0 files
           in (close_w fs' out_file doc, r)))"

section \<open>The command line and \<open>main\<close>\<close>

text \<open>
  What the command line gives: whether \<open>-a\<close> is present, the argument of \<open>-d\<close> and the
  argument of \<open>-o\<close>. The two mode flags form a required mutually exclusive group.
\<close>

record cli =
  flag_all :: bool
  flag_dir :: "string option"
  flag_output :: "string option"

record args =
  all :: bool
  dir_name :: "string option"
  output_name :: string

definition parse_args :: "cli \<Rightarrow> error + args" where
  "parse_args c =
     (if flag_all c \<and> flag_dir c \<noteq> None then Inl UsageError
      else if \<not> flag_all c \<and> flag_dir c = None then Inl UsageError
      else Inr \<lparr>all = flag_all c, dir_name = flag_dir c,
                output_name = (case flag_output c of None \<Rightarrow> OUTPUT_FILENAME | Some out \<Rightarrow> out)\<rparr>)"

text \<open>\<open>s.split(c)\<close>.\<close>

fun split :: "char \<Rightarrow> string \<Rightarrow> string list" where
  "split c [] = [[]]"
| "split c (x # xs) =
     (if x = c then [] # split c xs
      else (case split c xs of [] \<Rightarrow> [[x]] | y # ys \<Rightarrow> (x # y) # ys))"

text \<open>
  \<open>(base / s).resolve()\<close>: an absolute \<open>s\<close> replaces \<open>base\<close>; empty and \<open>.\<close> segments are
  dropped and \<open>..\<close> steps to the parent (the filesystem root is its own parent).
\<close>

definition resolve_step :: "path \<Rightarrow> string \<Rightarrow> path" where
  "resolve_step acc seg =
     (if seg = [] \<or> seg = ''.'' then acc
      else if seg = ''..'' then butlast acc
      else acc @ [seg])"

definition resolve_join :: "path \<Rightarrow> string \<Rightarrow> path" where
  "resolve_join base s =
     foldl resolve_step (if s \<noteq> [] \<and> hd s = CHR ''/'' then [] else base) (split CHR ''/'' s)"

text \<open>The root of the scan, or the \<open>SystemExit\<close> of a missing target directory.\<close>

definition target_error :: string where
  "target_error =
     [CHR 0x5B, CHR 0xEC, CHR 0x97, CHR 0x90, CHR 0xEB, CHR 0x9F, CHR 0xAC, CHR 0x5D, CHR 0x20,
      CHR 0xEB, CHR 0x94, CHR 0x94, CHR 0xEB, CHR 0xA0, CHR 0x89, CHR 0xED, CHR 0x86, CHR 0xA0,
      CHR 0xEB, CHR 0xA6, CHR 0xAC, CHR 0xEB, CHR 0xA5, CHR 0xBC, CHR 0x20, CHR 0xEC, CHR 0xB0,
      CHR 0xBE, CHR 0xEC, CHR 0x9D, CHR 0x84, CHR 0x20, CHR 0xEC, CHR 0x88, CHR 0x98, CHR 0x20,
      CHR 0xEC, CHR 0x97, CHR 0x86, CHR 0xEC, CHR 0x8A, CHR 0xB5, CHR 0xEB, CHR 0x8B, CHR 0x88,
      CHR 0xEB, CHR 0x8B, CHR 0xA4, CHR 0x3A, CHR 0x20]"

definition resolve_root :: "path \<Rightarrow> args \<Rightarrow> filesystem \<Rightarrow> error + path" where
  "resolve_root script_dir a fs =
     (if all a then Inr script_dir
      else (case dir_name a of
              None \<Rightarrow> Inl TypeError
            | Some d \<Rightarrow>
                (let root = resolve_join script_dir d
                 in if \<not> exists fs root \<or> \<not> is_dir fs root
                    then Inl (SystemExit (target_error @ str root))
                    else Inr root)))"

text \<open>The removal of a previous output: a failing \<open>unlink\<close> is passed over.\<close>

definition remove_old_output :: "filesystem \<Rightarrow> path \<Rightarrow> filesystem" where
  "remove_old_output fs out_path =
     (if exists fs out_path
      then (case unlink fs out_path of Inl e \<Rightarrow> fs | Inr fs' \<Rightarrow> fs')
      else fs)"

text \<open>\<open>str(n)\<close> of a natural number, in decimal.\<close>

function str_nat :: "nat \<Rightarrow> string" where
  "str_nat n =
     (if n < 10 then [char_of (48 + n)]
      else str_nat (n div 10) @ [char_of (48 + n mod 10)])"
  by pat_completeness auto
termination
  by (relation "measure id") auto

text \<open>The line printed on success.\<close>

definition done_prefix :: string where
  "done_prefix = [CHR 0x5B, CHR 0xEC, CHR 0x99, CHR 0x84, CHR 0xEB, CHR 0xA3, CHR 0x8C, CHR 0x5D, CHR 0x20]"

definition done_middle :: string where
  "done_middle =
     [CHR 0xEA, CHR 0xB0, CHR 0x9C, CHR 0x20, CHR 0xED, CHR 0x8C, CHR 0x8C, CHR 0xEC, CHR 0x9D,
      CHR 0xBC, CHR 0xEC, CHR 0x9D, CHR 0x84, CHR 0x20, CHR 0xEB, CHR 0xB3, CHR 0x91, CHR 0xED,
      CHR 0x95, CHR 0xA9, CHR 0xED, CHR 0x96, CHR 0x88, CHR 0xEC, CHR 0x8A, CHR 0xB5, CHR 0xEB,
      CHR 0x8B, CHR 0x88, CHR 0xEB, CHR 0x8B, CHR 0xA4]"

definition summary :: "nat \<Rightarrow> path \<Rightarrow> string" where
  "summary n out_path = done_prefix @ str_nat n @ done_middle @ '' -> '' @ str out_path"

text \<open>
  \<open>main\<close>, run from \<open>script_dir\<close>: the filesystem it leaves, and either the error that
  ends the run or the line it prints.
\<close>

definition main :: "path \<Rightarrow> cli \<Rightarrow> filesystem \<Rightarrow> filesystem \<times> (error + string)" where
  "main script_dir c fs =
     (case parse_args c of
        Inl e \<Rightarrow> (fs, Inl e)
      | Inr a \<Rightarrow>
          (case resolve_root script_dir a fs of
             Inl e \<Rightarrow> (fs, Inl e)
           | Inr root \<Rightarrow>
               (let out_path = resolve_join script_dir (output_name a);
                    fs1 = remove_old_output fs out_path;
                    files = iter_source_files fs1 root;
                    (fs2, r) = write_merged fs1 root files out_path
                in case r of
                     Some e \<Rightarrow> (fs2, Inl e)
                   | None \<Rightarrow> (fs2, Inr (summary (length files) out_path)))))"

section \<open>The document format of the specification\<close>

text \<open>
  One entry of the document as the specification words it: the header line
  \<open>-- <relative-path>\<close> with forward slashes, one blank line, the content with trailing
  whitespace trimmed, one newline.
\<close>

definition spec_block :: "filesystem \<Rightarrow> path \<Rightarrow> path \<Rightarrow> string" where
  "spec_block fs root f =
     ''-- '' @ join ''/'' (drop (length root) f) @ [newline] @ [newline]
     @ rstrip (entry_text fs f) @ [newline]"

section \<open>Scenarios\<close>

text \<open>The command line \<open>-a\<close>.\<close>

definition cli_all :: cli where
  "cli_all = \<lparr>flag_all = True, flag_dir = None, flag_output = None\<rparr>"

text \<open>The command lines \<open>-a -d sub\<close>, with no mode flag, and \<open>-d missing\<close>.\<close>

definition cli_both :: cli where
  "cli_both = \<lparr>flag_all = True, flag_dir = Some ''sub'', flag_output = None\<rparr>"

definition cli_neither :: cli where
  "cli_neither = \<lparr>flag_all = False, flag_dir = None, flag_output = None\<rparr>"

definition cli_missing :: cli where
  "cli_missing = \<lparr>flag_all = False, flag_dir = Some ''missing'', flag_output = None\<rparr>"

text \<open>Scenario A of the specification: \<open>a.py\<close> and \<open>sub/b.txt\<close> under the root \<open>/r\<close>.\<close>

definition scenario_A :: filesystem where
  "scenario_A = [([''r''], Dir), ([''r'', ''sub''], Dir),
     ([''r'', ''sub'', ''b.txt''], File True (Inr ''b'')),
     ([''r'', ''a.py''], File True (Inr ''a''))]"

text \<open>A root \<open>/build/proj\<close>, beneath a directory that bears an excluded name.\<close>

definition bug_fs :: filesystem where
  "bug_fs = [([''build''], Dir), ([''build'', ''proj''], Dir),
             ([''build'', ''proj'', ''a.py''], File True (Inr ''pass''))]"






section \<open>Facts about the enumerator\<close>

lemma set_iter_source_files:
  "set (iter_source_files fs root) = {p \<in> set (rglob fs root). keep fs root p}"
  by (simp add: iter_source_files_def)

lemma rglob_strict_prefix: "p \<in> set (rglob fs root) \<Longrightarrow> strict_prefix root p"
  by (auto simp: rglob_def split: if_splits)

lemma iter_source_files_beneath:
  "p \<in> set (iter_source_files fs root) \<Longrightarrow> strict_prefix root p"
  by (auto simp: set_iter_source_files dest: rglob_strict_prefix)

lemma iter_source_files_cong:
  assumes "map fst fs1 = map fst fs2" "\<And>p. is_dir fs1 p = is_dir fs2 p"
  shows "iter_source_files fs1 root = iter_source_files fs2 root"
proof -
  have "rglob fs1 root = rglob fs2 root" using assms by (simp add: rglob_def)
  moreover have "keep fs1 root = keep fs2 root" using assms(2) by (simp add: keep_def fun_eq_iff)
  ultimately show ?thesis by (simp add: iter_source_files_def)
qed

lemma set_parents: "set (parents p) = {q. strict_prefix q p}"
proof (intro set_eqI iffI)
  fix q assume "q \<in> set (parents p)"
  then obtain n where n: "n < length p" "q = take n p" by (auto simp: parents_def)
  then have "prefix q p" "length q < length p" by (simp_all add: take_is_prefix)
  then show "q \<in> {q. strict_prefix q p}" by (auto simp: strict_prefix_def)
next
  fix q assume "q \<in> {q. strict_prefix q p}"
  then have s: "strict_prefix q p" by simp
  then have "length q < length p" by (rule prefix_length_less)
  moreover have "q = take (length q) p" using s by (auto simp: strict_prefix_def prefix_def)
  ultimately show "q \<in> set (parents p)" by (auto simp: parents_def)
qed

lemma parents_split:
  assumes "strict_prefix root p"
  shows "set (filter (\<lambda>parent. parent \<noteq> root) (parents p))
       = set (between root p) \<union> set (parents root)"
proof -
  have "strict_prefix q p \<and> q \<noteq> root
      \<longleftrightarrow> (strict_prefix q p \<and> strict_prefix root q) \<or> strict_prefix q root" for q
  proof -
    have "strict_prefix q p \<Longrightarrow> prefix q root \<or> prefix root q"
      using assms prefix_same_cases [of q p root] by (auto simp: strict_prefix_def)
    moreover have "strict_prefix q root \<Longrightarrow> strict_prefix q p"
      using assms by (meson prefix_order.less_trans)
    ultimately show ?thesis by (auto simp: strict_prefix_def)
  qed
  then show ?thesis by (auto simp: set_parents between_def)
qed

lemma keep_spec:
  assumes "p \<in> set (rglob fs root)"
  shows "keep fs root p \<longleftrightarrow>
     spec_selected fs root p \<and> \<not> list_ex should_skip_dir (parents root)"
proof -
  have "strict_prefix root p" using assms by (auto simp: rglob_def split: if_splits)
  then have "list_ex should_skip_dir (filter (\<lambda>parent. parent \<noteq> root) (parents p))
     \<longleftrightarrow> list_ex should_skip_dir (between root p) \<or> list_ex should_skip_dir (parents root)"
    using parents_split [of root p] by (simp only: list_ex_iff) blast
  then show ?thesis using assms by (auto simp: keep_def spec_selected_def)
qed

lemma iter_source_files_characterised:
  "set (iter_source_files fs root)
     = {p. spec_selected fs root p \<and> \<not> list_ex should_skip_dir (parents root)}"
  by (auto simp: iter_source_files_def keep_spec spec_selected_def)

section \<open>Facts about the merger\<close>

lemma relative_to_beneath:
  "strict_prefix root p \<Longrightarrow>
   relative_to p root = Inr (drop (length root) p) \<and> drop (length root) p \<noteq> []"
  by (auto simp: relative_to_def strict_prefix_def prefix_def)

lemma write_entries_no_error:
  "(\<And>f. f \<in> set files \<Longrightarrow> prefix root f) \<Longrightarrow> snd (write_entries fs root n i files) = None"
proof (induction files arbitrary: i)
  case Nil
  show ?case by simp
next
  case (Cons f rest)
  have "prefix root f" using Cons.prems by simp
  moreover have "snd (write_entries fs root n (i + 1) rest) = None"
    using Cons.IH Cons.prems by simp
  ultimately show ?case
    by (cases "write_entries fs root n (Suc i) rest") (simp add: relative_to_def Let_def)
qed

lemma join_Cons: "xs \<noteq> [] \<Longrightarrow> join sep (x # xs) = x @ sep @ join sep xs"
  by (cases xs) simp_all


lemma write_entries_closed:
  "(\<And>f. f \<in> set files \<Longrightarrow> strict_prefix root f) \<Longrightarrow> i + length files = n \<Longrightarrow>
   fst (write_entries fs root n i files) = join [newline] (map (spec_block fs root) files)"
proof (induction files arbitrary: i)
  case Nil
  show ?case by simp
next
  case (Cons f rest)
  have f: "relative_to f root = Inr (drop (length root) f)" "drop (length root) f \<noteq> []"
    using relative_to_beneath [of root f] Cons.prems(1) by simp_all
  have ih: "fst (write_entries fs root n (Suc i) rest)
      = join [newline] (map (spec_block fs root) rest)"
    using Cons.IH [of "Suc i"] Cons.prems by simp
  have step: "fst (write_entries fs root n i (f # rest))
      = spec_block fs root f @ (if i \<noteq> n - 1 then [newline] else [])
        @ fst (write_entries fs root n (Suc i) rest)"
    using f by (cases "write_entries fs root n (Suc i) rest")
      (simp add: Let_def as_posix_def spec_block_def)
  show ?case
  proof (cases "rest = []")
    case True
    then have "i = n - 1" using Cons.prems(2) by simp
    then show ?thesis unfolding step using True by simp
  next
    case False
    then have "i \<noteq> n - 1" using Cons.prems(2) by (cases rest) auto
    then show ?thesis unfolding step ih using False by (simp add: join_Cons)
  qed
qed



section \<open>Facts about the filesystem operations\<close>

lemma filter_absent: "map_of fs k = None \<Longrightarrow> filter (\<lambda>e. fst e \<noteq> k) fs = fs"
  by (induction fs) (auto split: if_splits)

lemma map_of_filter_self: "map_of (filter (\<lambda>e. fst e \<noteq> k) fs) k = None"
  by (induction fs) auto

lemma map_of_filter_other:
  "q \<noteq> k \<Longrightarrow> map_of (filter (\<lambda>e. fst e \<noteq> k) fs) q = map_of fs q"
  by (induction fs) auto

lemma filter_update:
  "filter (\<lambda>e. fst e \<noteq> k) (AList.update k v fs) = filter (\<lambda>e. fst e \<noteq> k) fs"
  by (induction fs) auto

lemma update_twice: "AList.update k v (AList.update k w fs) = AList.update k v fs"
  by (induction fs) auto

lemma keys_update_present:
  "map_of fs k \<noteq> None \<Longrightarrow> map fst (AList.update k v fs) = map fst fs"
  by (induction fs) auto

lemma node_at_update: "p \<noteq> [] \<Longrightarrow> node_at (AList.update p v fs) p = Some v"
  by (simp add: node_at_def update_conv')

lemma node_at_update_other: "q \<noteq> p \<Longrightarrow> node_at (AList.update p v fs) q = node_at fs q"
  by (simp add: node_at_def update_conv')

lemma remove_old_output_dir:
  "node_at fs out = Some Dir \<Longrightarrow> remove_old_output fs out = fs"
  by (simp add: remove_old_output_def unlink_def)

lemma remove_old_output_cases:
  assumes "out \<noteq> []"
  shows "(node_at (remove_old_output fs out) out = None
          \<and> remove_old_output fs out = filter (\<lambda>e. fst e \<noteq> out) fs)
       \<or> (remove_old_output fs out = fs
          \<and> (node_at fs out = Some Dir \<or> (\<exists>c. node_at fs out = Some (File False c))))"
proof (cases "node_at fs out")
  case None
  then show ?thesis using assms
    by (simp add: remove_old_output_def exists_def node_at_def filter_absent)
next
  case (Some nd)
  then show ?thesis using assms
    by (cases nd)
      (auto simp: remove_old_output_def exists_def unlink_def node_at_def map_of_filter_self)
qed

lemma resolve_root_cong:
  assumes "\<And>p. is_dir fs1 p = is_dir fs2 p"
  shows "resolve_root sd a fs1 = resolve_root sd a fs2"
proof -
  have e: "(\<not> exists fs1 p \<or> \<not> is_dir fs1 p) = (\<not> exists fs2 p \<or> \<not> is_dir fs2 p)" for p
    using assms [of p] by (auto simp: exists_def is_dir_def)
  show ?thesis by (simp only: resolve_root_def e)
qed

lemma open_w_cases:
  assumes "open_w fs p = Inr fs'"
  shows "p \<noteq> [] \<and> (\<exists>d. fs' = AList.update p (File d (Inr [])) fs
            \<and> (\<forall>doc. close_w fs' p doc = AList.update p (File d (Inr doc)) fs)
            \<and> ((node_at fs p = None \<and> d) \<or> (\<exists>c. node_at fs p = Some (File d c))))"
proof -
  have p: "p \<noteq> []" using assms by (auto simp: open_w_def node_at_def)
  show ?thesis
  proof (cases "node_at fs p")
    case None
    then have "fs' = AList.update p (File True (Inr [])) fs"
      using assms by (simp add: open_w_def split: if_splits)
    then show ?thesis using p None
      by (intro conjI exI [of _ True]) (simp_all add: close_w_def node_at_update update_twice)
  next
    case (Some nd)
    then obtain d c where nd: "nd = File d c"
      using assms by (cases nd) (simp_all add: open_w_def)
    then have "fs' = AList.update p (File d (Inr [])) fs"
      using assms Some by (simp add: open_w_def)
    then show ?thesis using p Some nd
      by (simp add: close_w_def node_at_update update_twice)
  qed
qed

lemma is_dir_update_file:
  assumes "node_at fs out \<noteq> Some Dir"
  shows "is_dir (AList.update out (File d x) fs) p = is_dir fs p"
proof (cases "p = out")
  case True
  then show ?thesis using assms
    by (cases "out = []") (simp_all add: is_dir_def node_at_update, simp add: node_at_def)
next
  case False
  then show ?thesis by (simp add: is_dir_def node_at_update_other)
qed

lemma is_dir_filter_file:
  assumes "node_at fs out \<noteq> Some Dir"
  shows "is_dir (filter (\<lambda>e. fst e \<noteq> out) fs) p = is_dir fs p"
proof (cases "p = out")
  case True
  then show ?thesis using assms by (auto simp: is_dir_def node_at_def map_of_filter_self)
next
  case False
  then show ?thesis by (simp add: is_dir_def node_at_def map_of_filter_other)
qed

section \<open>Facts about \<open>write_merged\<close> and \<open>main\<close>\<close>

lemma write_merged_open:
  assumes "\<And>f. f \<in> set files \<Longrightarrow> strict_prefix root f" and o: "open_w fs out = Inr fs'"
  shows "write_merged fs root files out =
     (close_w fs' out (join [newline] (map (spec_block fs' root) files)), None)"
proof -
  have "snd (write_entries fs' root (length files) 0 files) = None"
    using assms(1) by (intro write_entries_no_error) (simp add: strict_prefix_def)
  moreover have "fst (write_entries fs' root (length files) 0 files)
      = join [newline] (map (spec_block fs' root) files)"
    using assms(1) by (intro write_entries_closed) simp_all
  ultimately have "write_entries fs' root (length files) 0 files
      = (join [newline] (map (spec_block fs' root) files), None)"
    by (simp add: prod_eq_iff)
  then show ?thesis by (simp add: write_merged_def o)
qed

lemma write_merged_fail:
  "open_w fs out = Inl e \<Longrightarrow> write_merged fs root files out = (fs, Some e)"
  by (simp add: write_merged_def)

lemma main_run:
  assumes "parse_args c = Inr a" "resolve_root sd a fs = Inr root"
    and "open_w (remove_old_output fs (resolve_join sd (output_name a)))
           (resolve_join sd (output_name a)) = Inr fs'"
  shows "main sd c fs =
    (close_w fs' (resolve_join sd (output_name a))
       (join [newline] (map (spec_block fs' root)
          (iter_source_files (remove_old_output fs (resolve_join sd (output_name a))) root))),
     Inr (summary
            (length (iter_source_files
               (remove_old_output fs (resolve_join sd (output_name a))) root))
            (resolve_join sd (output_name a))))"
  using assms by (simp add: main_def Let_def write_merged_open iter_source_files_beneath)

lemma main_success:
  assumes "main sd c fs = (fs1, Inr line)"
  shows "\<exists>a root fs'. parse_args c = Inr a \<and> resolve_root sd a fs = Inr root
    \<and> open_w (remove_old_output fs (resolve_join sd (output_name a)))
         (resolve_join sd (output_name a)) = Inr fs'"
proof (cases "parse_args c")
  case (Inl e)
  then show ?thesis using assms by (simp add: main_def)
next
  case (Inr a)
  note a = this
  show ?thesis
  proof (cases "resolve_root sd a fs")
    case (Inl e)
    then show ?thesis using assms a by (simp add: main_def)
  next
    case (Inr root)
    note r = this
    show ?thesis
    proof (cases "open_w (remove_old_output fs (resolve_join sd (output_name a)))
                    (resolve_join sd (output_name a))")
      case (Inl e)
      then show ?thesis using assms a r by (simp add: main_def Let_def write_merged_fail)
    next
      case (Inr fs')
      then show ?thesis using a r by blast
    qed
  qed
qed

section \<open>The allowlist test\<close>


section \<open>The enumerator: exclusion and order\<close>

text \<open>
  C1. The enumerator is to return exactly the files beneath the root that pass the
  allowlist test and have no excluded directory name strictly between them and the
  root, directories above the root never being consulted. What \<open>iter_source_files\<close>
  returns is those files only where no proper ancestor of the root bears an excluded
  name, and nothing otherwise: \<open>p.parents\<close> runs on above the root, and the guard
  \<open>parent != root\<close> spares only the root itself. With the root \<open>/build/proj\<close> the
  file \<open>/build/proj/a.py\<close> is selected in the sense of the specification, and
  \<open>iter_source_files\<close> returns nothing.
\<close>

theorem excluded_name_above_root:
  "set (iter_source_files fs root)
     = {p. spec_selected fs root p \<and> \<not> list_ex should_skip_dir (parents root)}
   \<and> list_ex should_skip_dir (parents [''build'', ''proj''])
   \<and> iter_source_files bug_fs [''build'', ''proj''] = []
   \<and> spec_selected bug_fs [''build'', ''proj''] [''build'', ''proj'', ''a.py'']"
proof (intro conjI)
  show "set (iter_source_files fs root)
     = {p. spec_selected fs root p \<and> \<not> list_ex should_skip_dir (parents root)}"
    by (rule iter_source_files_characterised)
  show "list_ex should_skip_dir (parents [''build'', ''proj''])" by code_simp
  show "iter_source_files bug_fs [''build'', ''proj''] = []" by code_simp
  show "spec_selected bug_fs [''build'', ''proj''] [''build'', ''proj'', ''a.py'']"
    by code_simp
qed


section \<open>The output file and the scan\<close>




section \<open>The format of the document\<close>



section \<open>Read failures\<close>



section \<open>Idempotence\<close>

text \<open>
  C7. A second run with the same arguments on the tree the first run left, whose
  output file now exists there, ends the same way and leaves the filesystem, and with
  it the content of the output file, as the first run left it.
\<close>

theorem main_idempotent:
  assumes m: "main sd c fs = (fs1, Inr line)"
  shows "main sd c fs1 = (fs1, Inr line)
    \<and> (\<exists>a d doc. parse_args c = Inr a
          \<and> node_at fs1 (resolve_join sd (output_name a)) = Some (File d (Inr doc)))"
proof -
  obtain a root fs' where a: "parse_args c = Inr a" and r: "resolve_root sd a fs = Inr root"
    and o: "open_w (remove_old_output fs (resolve_join sd (output_name a)))
              (resolve_join sd (output_name a)) = Inr fs'"
    using main_success [OF m] by blast
  define out where "out = resolve_join sd (output_name a)"
  define X where "X = remove_old_output fs out"
  define doc where "doc = join [newline] (map (spec_block fs' root) (iter_source_files X root))"
  have o': "open_w X out = Inr fs'" using o by (simp add: out_def X_def)
  have res: "fs1 = close_w fs' out doc" "line = summary (length (iter_source_files X root)) out"
    using main_run [OF a r o] m by (simp_all add: out_def X_def doc_def)
  obtain d where out: "out \<noteq> []" and fs': "fs' = AList.update out (File d (Inr [])) X"
    and cl: "\<And>doc. close_w fs' out doc = AList.update out (File d (Inr doc)) X"
    and nd: "(node_at X out = None \<and> d) \<or> (\<exists>c. node_at X out = Some (File d c))"
    using open_w_cases [OF o'] by blast
  have fs1: "fs1 = AList.update out (File d (Inr doc)) X" using res(1) cl by simp
  have XnotDir: "node_at X out \<noteq> Some Dir" using nd by auto
  have fsnotDir: "node_at fs out \<noteq> Some Dir"
  proof
    assume "node_at fs out = Some Dir"
    then show False using XnotDir by (simp add: X_def remove_old_output_dir)
  qed
  have dirX: "\<And>p. is_dir X p = is_dir fs p"
    using remove_old_output_cases [OF out, of fs] fsnotDir
    by (auto simp: X_def is_dir_filter_file)
  have dir1: "\<And>p. is_dir fs1 p = is_dir fs p"
    using XnotDir by (simp add: fs1 is_dir_update_file dirX)
  have r1: "resolve_root sd a fs1 = Inr root"
    using resolve_root_cong [of fs1 fs sd a] dir1 r by simp
  have n1: "node_at fs1 out = Some (File d (Inr doc))" by (simp add: fs1 node_at_update out)
  have key: "open_w (remove_old_output fs1 out) out = Inr fs'
     \<and> iter_source_files (remove_old_output fs1 out) root = iter_source_files X root"
  proof (cases "node_at X out")
    case None
    then have d: d using nd by simp
    have "remove_old_output fs1 out = filter (\<lambda>e. fst e \<noteq> out) fs1"
      using n1 d by (simp add: remove_old_output_def exists_def unlink_def)
    also have "\<dots> = X" using None out by (simp add: fs1 filter_update filter_absent node_at_def)
    finally show ?thesis using o' by simp
  next
    case (Some nd')
    then obtain c where c: "node_at X out = Some (File d c)" using nd by auto
    have Xfs: "X = fs" and nd0: "d = False"
      using remove_old_output_cases [OF out, of fs] c by (auto simp: X_def)
    have "remove_old_output fs1 out = fs1"
      using n1 nd0 by (simp add: remove_old_output_def exists_def unlink_def)
    moreover have "open_w fs1 out = Inr fs'"
      using n1 by (simp add: open_w_def fs' fs1 update_twice)
    moreover have "iter_source_files fs1 root = iter_source_files X root"
    proof (rule iter_source_files_cong)
      show "map fst fs1 = map fst X"
        using c out by (simp add: fs1 keys_update_present node_at_def)
      show "\<And>p. is_dir fs1 p = is_dir X p" by (simp add: dir1 dirX)
    qed
    ultimately show ?thesis by simp
  qed
  have "main sd c fs1 = (fs1, Inr line)"
    using main_run [OF a r1, of fs'] key res by (simp add: out_def [symmetric] doc_def)
  then show ?thesis using a n1 by (auto simp: out_def)
qed

theorem main_idempotent_witness:
  "main [''r''] cli_all scenario_A =
     (fst (main [''r''] cli_all scenario_A), Inr (summary 2 [''r'', ''document.txt'']))
   \<and> main [''r''] cli_all (fst (main [''r''] cli_all scenario_A)) =
     (fst (main [''r''] cli_all scenario_A), Inr (summary 2 [''r'', ''document.txt'']))
   \<and> exists (fst (main [''r''] cli_all scenario_A)) [''r'', ''document.txt'']"
proof -
  have h: "main [''r''] cli_all scenario_A =
     (fst (main [''r''] cli_all scenario_A), Inr (summary 2 [''r'', ''document.txt'']))"
    by code_simp
  have e: "exists (fst (main [''r''] cli_all scenario_A)) [''r'', ''document.txt'']"
    by code_simp
  show ?thesis using h e main_idempotent [OF h] by simp
qed

section \<open>The summary of a successful run\<close>



section \<open>Validation of the arguments\<close>

text \<open>
  C9. \<open>parse_args\<close> accepts the command line exactly when one of the two mode flags is
  given; with both or neither the run ends with a usage error and the filesystem is
  untouched. In the mode \<open>-d\<close> the target is the tool's directory joined with the
  given name (for a plain name, that directory with the name appended); where it does
  not exist or is not a directory the run ends with \<open>SystemExit\<close> and its message, and
  the filesystem is untouched: nothing is scanned, removed or written.
\<close>

theorem mode_and_target_validation:
  "(parse_args c = Inl UsageError) = (flag_all c = (flag_dir c \<noteq> None))
   \<and> (\<forall>e. parse_args c = Inl e \<longrightarrow> e = UsageError \<and> main sd c fs = (fs, Inl UsageError))
   \<and> (\<forall>a. parse_args c = Inr a \<longrightarrow>
         all a = flag_all c \<and> dir_name a = flag_dir c \<and> all a \<noteq> (dir_name a \<noteq> None))
   \<and> (\<not> flag_all c \<and> flag_dir c = Some d
        \<and> (\<not> exists fs (resolve_join sd d) \<or> \<not> is_dir fs (resolve_join sd d))
       \<longrightarrow> main sd c fs = (fs, Inl (SystemExit (target_error @ str (resolve_join sd d)))))
   \<and> (CHR ''/'' \<notin> set d \<and> d \<noteq> [] \<and> d \<noteq> ''.'' \<and> d \<noteq> ''..''
       \<longrightarrow> resolve_join sd d = sd @ [d])"
proof (intro conjI allI impI)
  show "(parse_args c = Inl UsageError) = (flag_all c = (flag_dir c \<noteq> None))"
    by (auto simp: parse_args_def)
next
  fix e assume "parse_args c = Inl e"
  then show "e = UsageError" by (auto simp: parse_args_def split: if_splits)
next
  fix e assume "parse_args c = Inl e"
  then show "main sd c fs = (fs, Inl UsageError)"
    by (auto simp: main_def parse_args_def split: if_splits)
next
  fix a assume "parse_args c = Inr a"
  then have a: "all a = flag_all c" "dir_name a = flag_dir c"
    "\<not> (flag_all c \<and> flag_dir c \<noteq> None)" "\<not> (\<not> flag_all c \<and> flag_dir c = None)"
    by (auto simp: parse_args_def split: if_splits)
  show "all a = flag_all c" by (rule a(1))
  show "dir_name a = flag_dir c" by (rule a(2))
  show "all a \<noteq> (dir_name a \<noteq> None)" using a by auto
next
  assume h: "\<not> flag_all c \<and> flag_dir c = Some d
        \<and> (\<not> exists fs (resolve_join sd d) \<or> \<not> is_dir fs (resolve_join sd d))"
  then obtain a where a: "parse_args c = Inr a" "\<not> all a" "dir_name a = Some d"
    by (simp add: parse_args_def)
  then have "resolve_root sd a fs = Inl (SystemExit (target_error @ str (resolve_join sd d)))"
    using h by (auto simp: resolve_root_def Let_def)
  then show "main sd c fs = (fs, Inl (SystemExit (target_error @ str (resolve_join sd d))))"
    using a by (simp add: main_def)
next
  assume h: "CHR ''/'' \<notin> set d \<and> d \<noteq> [] \<and> d \<noteq> ''.'' \<and> d \<noteq> ''..''"
  have s: "CHR ''/'' \<notin> set s \<Longrightarrow> split CHR ''/'' s = [s]" for s
    by (induction s) auto
  have "hd d \<noteq> CHR ''/''" using h by (cases d) auto
  then show "resolve_join sd d = sd @ [d]"
    using h s [of d] by (simp add: resolve_join_def resolve_step_def)
qed

theorem mode_and_target_validation_witness:
  "main [''r''] cli_both scenario_A = (scenario_A, Inl UsageError)
   \<and> main [''r''] cli_neither scenario_A = (scenario_A, Inl UsageError)
   \<and> resolve_join [''r''] ''missing'' = [''r'', ''missing'']
   \<and> main [''r''] cli_missing scenario_A
       = (scenario_A, Inl (SystemExit (target_error @ ''/r/missing'')))"
proof -
  have b: "parse_args cli_both = Inl UsageError" by code_simp
  have n: "parse_args cli_neither = Inl UsageError" by code_simp
  have m: "\<not> flag_all cli_missing \<and> flag_dir cli_missing = Some ''missing''
      \<and> (\<not> exists scenario_A (resolve_join [''r''] ''missing'')
          \<or> \<not> is_dir scenario_A (resolve_join [''r''] ''missing''))"
    by code_simp
  have p: "CHR ''/'' \<notin> set ''missing'' \<and> ''missing'' \<noteq> [] \<and> ''missing'' \<noteq> ''.''
      \<and> ''missing'' \<noteq> ''..''"
    by simp
  have j: "resolve_join [''r''] ''missing'' = [''r'', ''missing'']"
    using mode_and_target_validation [of cli_missing "[''r'']" scenario_A "''missing''"] p
    by simp
  have s: "str [''r'', ''missing''] = ''/r/missing''" by code_simp
  show ?thesis
    using mode_and_target_validation [of cli_both "[''r'']" scenario_A] b
      mode_and_target_validation [of cli_neither "[''r'']" scenario_A] n
      mode_and_target_validation [of cli_missing "[''r'']" scenario_A "''missing''"] m j s
    by simp
qed

section \<open>Paths relative to the root\<close>




end
